theory Spec2Isabelle
  imports Main
begin

section \<open>Strings and the library functions the program calls\<close>

text \<open>
  A Go string is a sequence of bytes; it is modelled as \<open>string\<close> (a list of 8-bit
  characters).  The functions of this section belong to Go's standard library
  (\<^verbatim>\<open>strings\<close>, \<^verbatim>\<open>strconv\<close>, \<^verbatim>\<open>fmt\<close>); they are written out
  so that the program's own functions can be evaluated.
\<close>

definition newline :: char where
  "newline = CHR 0x0A"

text \<open>
  \<^verbatim>\<open>strings.HasPrefix(s, prefix)\<close>.
\<close>

definition HasPrefix :: "string \<Rightarrow> string \<Rightarrow> bool" where
  "HasPrefix s p = (take (length p) s = p)"

definition HasSuffix :: "string \<Rightarrow> string \<Rightarrow> bool" where
  "HasSuffix s p = (length p \<le> length s \<and> drop (length s - length p) s = p)"

text \<open>
  \<^verbatim>\<open>strings.Split(s, sep)\<close> for a separator of one byte: \<open>n\<close> separators give
  \<open>n + 1\<close> pieces, the empty string gives one empty piece.
\<close>

fun Split :: "string \<Rightarrow> char \<Rightarrow> string list" where
  "Split [] sep = [[]]"
| "Split (c # cs) sep =
     (if c = sep then [] # Split cs sep
      else (case Split cs sep of [] \<Rightarrow> [[c]] | piece # pieces \<Rightarrow> (c # piece) # pieces))"

text \<open>
  \<^verbatim>\<open>strings.TrimSpace\<close> removes the leading and the trailing white space, as
  \<^verbatim>\<open>unicode.IsSpace\<close> defines it.  A white-space code point is decoded exactly where
  its UTF-8 encoding stands, so trimming removes these byte sequences from both ends:
  U+0009 to U+000D, U+0020, U+0085, U+00A0, U+1680, U+2000 to U+200A, U+2028, U+2029,
  U+202F, U+205F and U+3000.
\<close>

definition space_runes :: "string list" where
  "space_runes =
     [[CHR 0x09], [CHR 0x0A], [CHR 0x0B], [CHR 0x0C], [CHR 0x0D], [CHR 0x20],
      [CHR 0xC2, CHR 0x85], [CHR 0xC2, CHR 0xA0],
      [CHR 0xE1, CHR 0x9A, CHR 0x80],
      [CHR 0xE2, CHR 0x80, CHR 0x80], [CHR 0xE2, CHR 0x80, CHR 0x81],
      [CHR 0xE2, CHR 0x80, CHR 0x82], [CHR 0xE2, CHR 0x80, CHR 0x83],
      [CHR 0xE2, CHR 0x80, CHR 0x84], [CHR 0xE2, CHR 0x80, CHR 0x85],
      [CHR 0xE2, CHR 0x80, CHR 0x86], [CHR 0xE2, CHR 0x80, CHR 0x87],
      [CHR 0xE2, CHR 0x80, CHR 0x88], [CHR 0xE2, CHR 0x80, CHR 0x89],
      [CHR 0xE2, CHR 0x80, CHR 0x8A],
      [CHR 0xE2, CHR 0x80, CHR 0xA8], [CHR 0xE2, CHR 0x80, CHR 0xA9],
      [CHR 0xE2, CHR 0x80, CHR 0xAF],
      [CHR 0xE2, CHR 0x81, CHR 0x9F],
      [CHR 0xE3, CHR 0x80, CHR 0x80]]"

definition leading_space :: "string \<Rightarrow> nat" where
  \<comment> \<open>the width of the white-space rune the string starts with, 0 when there is none\<close>
  "leading_space s =
     (case find (\<lambda>r. HasPrefix s r) space_runes of None \<Rightarrow> 0 | Some r \<Rightarrow> length r)"

definition trailing_space :: "string \<Rightarrow> nat" where
  \<comment> \<open>the width of the white-space rune the string ends with, 0 when there is none\<close>
  "trailing_space s =
     (case find (\<lambda>r. HasSuffix s r) space_runes of None \<Rightarrow> 0 | Some r \<Rightarrow> length r)"

lemma find_space_runes_width:
  "find P space_runes = Some r \<Longrightarrow> 0 < length r \<and> length r \<le> 3"
  by (auto simp: space_runes_def split: if_splits)

lemma leading_space_le: "leading_space s \<le> length s"
proof (cases "find (\<lambda>r. HasPrefix s r) space_runes")
  case None
  then show ?thesis by (simp add: leading_space_def)
next
  case (Some r)
  then have "HasPrefix s r" by (auto dest: find_Some_iff[THEN iffD1])
  then have "length r \<le> length s"
    by (metis HasPrefix_def length_take min.cobounded1)
  with Some show ?thesis by (simp add: leading_space_def)
qed

lemma trailing_space_le: "trailing_space s \<le> length s"
proof (cases "find (\<lambda>r. HasSuffix s r) space_runes")
  case None
  then show ?thesis by (simp add: trailing_space_def)
next
  case (Some r)
  then have "HasSuffix s r" by (auto dest: find_Some_iff[THEN iffD1])
  then have "length r \<le> length s" by (simp add: HasSuffix_def)
  with Some show ?thesis by (simp add: trailing_space_def)
qed

function TrimLeft :: "string \<Rightarrow> string" where
  "TrimLeft s = (if leading_space s = 0 then s else TrimLeft (drop (leading_space s) s))"
  by pat_completeness auto
termination
proof (relation "measure length")
  show "wf (measure length)" by simp
next
  fix s :: string
  assume "leading_space s \<noteq> 0"
  moreover have "leading_space s \<le> length s" by (rule leading_space_le)
  ultimately show "(drop (leading_space s) s, s) \<in> measure length" by simp
qed

function TrimRight :: "string \<Rightarrow> string" where
  "TrimRight s =
     (if trailing_space s = 0 then s else TrimRight (take (length s - trailing_space s) s))"
  by pat_completeness auto
termination
proof (relation "measure length")
  show "wf (measure length)" by simp
next
  fix s :: string
  assume "trailing_space s \<noteq> 0"
  moreover have "trailing_space s \<le> length s" by (rule trailing_space_le)
  ultimately show "(take (length s - trailing_space s) s, s) \<in> measure length" by simp
qed

declare TrimLeft.simps [simp del] TrimRight.simps [simp del]

definition TrimSpace :: "string \<Rightarrow> string" where
  "TrimSpace s = TrimRight (TrimLeft s)"

text \<open>
  \<^verbatim>\<open>strconv.Atoi\<close>: an optional sign, then one or more decimal digits and nothing
  else; the value must fit the platform's \<^verbatim>\<open>int\<close> of \<open>bits\<close> bits.  \<open>None\<close> is
  a non-nil error.
\<close>

definition digit_value :: "char \<Rightarrow> nat option" where
  "digit_value c =
     (let n = (of_char c :: nat) in if 48 \<le> n \<and> n \<le> 57 then Some (n - 48) else None)"

fun parse_digits :: "string \<Rightarrow> nat \<Rightarrow> nat option" where
  "parse_digits [] n = Some n"
| "parse_digits (ch # s) n =
     (case digit_value ch of None \<Rightarrow> None | Some d \<Rightarrow> parse_digits s (n * 10 + d))"

definition Atoi :: "nat \<Rightarrow> string \<Rightarrow> int option" where
  "Atoi bits s =
     (case s of
        [] \<Rightarrow> None
      | s0 # rest \<Rightarrow>
          (let ds = (if s0 = CHR ''-'' \<or> s0 = CHR ''+'' then rest else s) in
           if ds = [] then None
           else (case parse_digits ds 0 of
                   None \<Rightarrow> None
                 | Some n \<Rightarrow>
                     (let v = (if s0 = CHR ''-'' then - int n else int n) in
                      if - (2 ^ (bits - 1)) \<le> v \<and> v < 2 ^ (bits - 1) then Some v else None))))"

text \<open>
  \<^verbatim>\<open>fmt.Sprintf("%d", n)\<close> for a number that is not negative (a process ID).
\<close>

fun decimal :: "nat \<Rightarrow> string" where
  "decimal n =
     (if n < 10 then [''0123456789'' ! n]
      else decimal (n div 10) @ [''0123456789'' ! (n mod 10)])"

declare decimal.simps [simp del]

section \<open>Package command: running a program and capturing its output\<close>

record CommandError =
  Command :: string
  Args :: "string list"

text \<open>
  What the operating system does with one run of \<^verbatim>\<open>GetOutput\<close>: each constructor is
  one of the places where the function inspects an error.  \<open>Completed out\<close> is a run in
  which the pipe was made, the child started and was waited for, and \<open>out\<close> was read from
  the pipe.  A child that never exits leaves \<^verbatim>\<open>GetOutput\<close> blocked in
  \<^verbatim>\<open>process.Wait\<close>; such runs are not part of the model.
\<close>

datatype run_result = PipeFailed | StartFailed | WaitFailed | CopyFailed | Completed string

datatype panic = IndexOutOfRange

definition GetOutput_Error :: "string list \<Rightarrow> panic + (string \<times> CommandError option)" where
  \<comment> \<open>the label \<^verbatim>\<open>Error:\<close>; \<^verbatim>\<open>args[0]\<close> of an empty slice panics\<close>
  "GetOutput_Error args =
     (case args of
        [] \<Rightarrow> Inl IndexOutOfRange
      | a0 # _ \<Rightarrow> Inr ('''', Some \<lparr>Command = a0, Args = args\<rparr>))"

definition GetOutput ::
  "(string list \<Rightarrow> run_result) \<Rightarrow> string list \<Rightarrow> panic + (string \<times> CommandError option)" where
  "GetOutput os args =
     (if os args = PipeFailed then GetOutput_Error args
      else (case args of
              [] \<Rightarrow> Inl IndexOutOfRange
            | a0 # _ \<Rightarrow>
                (if os args = StartFailed then GetOutput_Error args
                 else if os args = WaitFailed then GetOutput_Error args
                 else (case os args of
                         Completed out \<Rightarrow> Inr (out, None)
                       | _ \<Rightarrow> GetOutput_Error args))))"

section \<open>Package runtime: the world outside the program\<close>

text \<open>
  Everything the program asks of its surroundings is a field of \<open>world\<close>: the platform
  constant, the width of \<^verbatim>\<open>int\<close>, the process ID, the two library functions that
  join path elements (\<^verbatim>\<open>path.Join\<close> and \<^verbatim>\<open>filepath.Join\<close>, applied to two
  elements), what the operating system answers to a command the process runs, the
  system calls that fail, and the bodies of the callbacks the application registers.
  A callback is a Go \<^verbatim>\<open>func()\<close>: applied to the file system it returns the new file
  system and the exit handlers it registered while it ran, or \<open>None\<close> when it panics.
\<close>

type_synonym inode = nat

record fsys =
  entries :: "string \<rightharpoonup> inode"
  contents :: "inode \<Rightarrow> string"
  fresh :: inode

record Lock =
  link :: string
  file' :: string
  acquired :: bool

text \<open>
  An exit handler is the closure \<^verbatim>\<open>func() { lock.ReleaseLock() }\<close> that \<^verbatim>\<open>GetLock\<close>
  registers, or a callback of the application, known by a number.  A signal handler is
  a closure \<^verbatim>\<open>func() { Exit(code) }\<close>, as \<^verbatim>\<open>init\<close> stores it, or a callback.  A
  process runs, has ended through \<^verbatim>\<open>os.Exit\<close> with a code, or has crashed with a
  panic that nothing recovers.  The signals are numbers, as in package \<^verbatim>\<open>syscall\<close>.
\<close>

datatype handler = ReleaseLockClosure Lock | Callback nat

datatype signal_handler = ExitClosure int | SignalCallback nat

datatype goroutine = HandleSignals | CreatePidFileCall string

datatype status = Running | Exited int | Crashed

datatype os_error =
  OpenError string | CloseError string | LinkError string string | RemoveError string

record world =
  Platform :: string
  intSize :: nat
  pid :: nat
  path_Join :: "string \<Rightarrow> string \<Rightarrow> string"
  filepath_Join :: "string \<Rightarrow> string \<Rightarrow> string"
  run :: "string list \<Rightarrow> run_result"
  open_fails :: "string \<Rightarrow> bool"
  write_fails :: "string \<Rightarrow> bool"
  close_fails :: "string \<Rightarrow> bool"
  link_fails :: "string \<Rightarrow> string \<Rightarrow> bool"
  callback :: "nat \<Rightarrow> fsys \<Rightarrow> (fsys \<times> handler list) option"

text \<open>
  The state of the process: the file system it shares with other processes, the package
  variables \<^verbatim>\<open>exitHandlers\<close>, \<^verbatim>\<open>SignalHandlers\<close> and \<^verbatim>\<open>CPUCount\<close>, the
  goroutines started with \<^verbatim>\<open>go\<close>, and whether the process still runs.  \<open>invoked\<close> is
  not a variable of the program: it records every call of an exit handler, in order.
\<close>

record proc =
  fs :: fsys
  exitHandlers :: "handler list"
  SignalHandlers :: "nat \<rightharpoonup> signal_handler"
  CPUCount :: int
  goroutines :: "goroutine list"
  invoked :: "handler list"
  status :: status

definition os_Interrupt :: nat where
  "os_Interrupt = 2"

definition SIGTERM :: nat where
  "SIGTERM = 15"

definition start :: "fsys \<Rightarrow> proc" where
  \<comment> \<open>the package variables as their declarations initialise them\<close>
  "start f =
     \<lparr>fs = f, exitHandlers = [], SignalHandlers = Map.empty, CPUCount = 0,
      goroutines = [], invoked = [], status = Running\<rparr>"

subsection \<open>The CPU count\<close>

text \<open>
  \<^verbatim>\<open>count\<close> is a Go \<^verbatim>\<open>int\<close>.  On Linux the loop adds one for a line at most, and
  a string has fewer lines than an \<^verbatim>\<open>int\<close> can count, so the sum does not wrap and
  is modelled as an integer.  On Darwin and FreeBSD \<^verbatim>\<open>count\<close> is what
  \<^verbatim>\<open>strconv.Atoi\<close> returns.  The arguments of \<^verbatim>\<open>GetOutput\<close> are never empty here,
  so its panic cannot happen; it is passed on to keep the types honest.
\<close>

fun count_processors :: "string list \<Rightarrow> int \<Rightarrow> int" where
  "count_processors [] count = count"
| "count_processors (line # lines) count =
     count_processors lines (if HasPrefix line ''processor'' then count + 1 else count)"

definition GetCPUCount :: "world \<Rightarrow> panic + int" where
  "GetCPUCount w =
     (if Platform w = ''darwin'' \<or> Platform w = ''freebsd'' then
        (case GetOutput (run w) [''/usr/sbin/sysctl'', ''-n'', ''hw.ncpu''] of
           Inl p \<Rightarrow> Inl p
         | Inr (output, Some err) \<Rightarrow> Inr 1
         | Inr (output, None) \<Rightarrow>
             (case Atoi (intSize w) (TrimSpace output) of
                None \<Rightarrow> Inr 1
              | Some count \<Rightarrow> if count = 0 then Inr 1 else Inr count))
      else if Platform w = ''linux'' then
        (case GetOutput (run w) [''/bin/cat'', ''/proc/cpuinfo''] of
           Inl p \<Rightarrow> Inl p
         | Inr (output, Some err) \<Rightarrow> Inr 1
         | Inr (output, None) \<Rightarrow>
             (let count = count_processors (Split output newline) 0 in
              if count = 0 then Inr 1 else Inr count))
      else Inr 1)"

subsection \<open>System calls on files\<close>

text \<open>
  A directory entry names an inode; a hard link is a second entry for the same inode.
  \<^verbatim>\<open>os.OpenFile\<close> is called with \<^verbatim>\<open>O_CREATE|O_WRONLY\<close> only: it makes an empty
  file where there is none and opens the file that is there otherwise.  \<^verbatim>\<open>os.Link\<close>
  fails when the old path is missing, when the new path exists, or when the system
  refuses.  \<^verbatim>\<open>os.Remove\<close> of an entry that is there removes it, and of a missing entry
  returns an error.
\<close>

definition os_OpenFile :: "world \<Rightarrow> string \<Rightarrow> fsys \<Rightarrow> (os_error + inode) \<times> fsys" where
  "os_OpenFile w path f =
     (if open_fails w path then (Inl (OpenError path), f)
      else (case entries f path of
              Some i \<Rightarrow> (Inr i, f)
            | None \<Rightarrow>
                (Inr (fresh f),
                 f\<lparr>entries := (entries f)(path \<mapsto> fresh f),
                   contents := (contents f)(fresh f := ''''),
                   fresh := Suc (fresh f)\<rparr>)))"

definition os_Link :: "world \<Rightarrow> string \<Rightarrow> string \<Rightarrow> fsys \<Rightarrow> os_error option \<times> fsys" where
  "os_Link w old new f =
     (case entries f old of
        None \<Rightarrow> (Some (LinkError old new), f)
      | Some i \<Rightarrow>
          (if entries f new \<noteq> None \<or> link_fails w old new then (Some (LinkError old new), f)
           else (None, f\<lparr>entries := (entries f)(new \<mapsto> i)\<rparr>)))"

definition os_Remove :: "string \<Rightarrow> fsys \<Rightarrow> os_error option \<times> fsys" where
  "os_Remove path f =
     (case entries f path of
        None \<Rightarrow> (Some (RemoveError path), f)
      | Some i \<Rightarrow> (None, f\<lparr>entries := (entries f)(path := None)\<rparr>))"

definition write_file :: "world \<Rightarrow> string \<Rightarrow> inode \<Rightarrow> string \<Rightarrow> fsys \<Rightarrow> fsys" where
  \<comment> \<open>a write at offset 0 of a file opened without truncation; its error is not looked at\<close>
  "write_file w path i bytes f =
     (if write_fails w path then f
      else f\<lparr>contents := (contents f)(i := bytes @ drop (length bytes) (contents f i))\<rparr>)"

definition visible :: "fsys \<Rightarrow> string \<rightharpoonup> string" where
  \<comment> \<open>what a process can observe of the file system: the content behind each path\<close>
  "visible f path = map_option (contents f) (entries f path)"

subsection \<open>Exit handlers\<close>

definition RegisterExitHandler :: "handler \<Rightarrow> proc \<Rightarrow> proc" where
  "RegisterExitHandler h s = s\<lparr>exitHandlers := exitHandlers s @ [h]\<rparr>"

definition ReleaseLock :: "Lock \<Rightarrow> fsys \<Rightarrow> fsys" where
  "ReleaseLock lock f = snd (os_Remove (link lock) (snd (os_Remove (file' lock) f)))"

definition invoke :: "world \<Rightarrow> handler \<Rightarrow> proc \<Rightarrow> proc" where
  \<comment> \<open>the call \<^verbatim>\<open>handler()\<close>\<close>
  "invoke w h s =
     (let s1 = s\<lparr>invoked := invoked s @ [h]\<rparr> in
      case h of
        ReleaseLockClosure lock \<Rightarrow> s1\<lparr>fs := ReleaseLock lock (fs s1)\<rparr>
      | Callback n \<Rightarrow>
          (case callback w n (fs s1) of
             None \<Rightarrow> s1\<lparr>status := Crashed\<rparr>
           | Some (f, registered) \<Rightarrow>
               s1\<lparr>fs := f, exitHandlers := exitHandlers s1 @ registered\<rparr>))"

text \<open>
  The loop of \<^verbatim>\<open>RunExitHandlers\<close> ranges over the slice as it is when the loop
  starts; a handler registered while the loop runs is not part of it.  A panic of a
  handler ends the process.
\<close>

fun run_handlers :: "world \<Rightarrow> handler list \<Rightarrow> proc \<Rightarrow> proc" where
  "run_handlers w [] s = s"
| "run_handlers w (h # hs) s =
     (let s' = invoke w h s in if status s' = Running then run_handlers w hs s' else s')"

definition RunExitHandlers :: "world \<Rightarrow> proc \<Rightarrow> proc" where
  "RunExitHandlers w s = run_handlers w (exitHandlers s) s"

text \<open>
  \<^verbatim>\<open>Exit\<close>, \<^verbatim>\<open>Error\<close> and \<^verbatim>\<open>StandardError\<close> do not return: the state they give
  is the last state of the process.  Their calls into package \<^verbatim>\<open>log\<close> touch nothing
  of the state modelled here.
\<close>

definition Exit :: "world \<Rightarrow> int \<Rightarrow> proc \<Rightarrow> proc" where
  "Exit w code s =
     (let s' = RunExitHandlers w s in
      if status s' = Running then s'\<lparr>status := Exited code\<rparr> else s')"

definition Error :: "world \<Rightarrow> proc \<Rightarrow> proc" where
  "Error w s = Exit w 1 s"

definition StandardError :: "world \<Rightarrow> os_error \<Rightarrow> proc \<Rightarrow> proc" where
  "StandardError w err s = Exit w 1 s"

subsection \<open>The process lock and the PID file\<close>

definition CreatePidFile :: "world \<Rightarrow> string \<Rightarrow> proc \<Rightarrow> proc" where
  "CreatePidFile w path s =
     (case os_OpenFile w path (fs s) of
        (Inl err, f) \<Rightarrow> StandardError w err (s\<lparr>fs := f\<rparr>)
      | (Inr pidFile, f) \<Rightarrow>
          (let s' = s\<lparr>fs := write_file w path pidFile (decimal (pid w)) f\<rparr> in
           if close_fails w path then StandardError w (CloseError path) s' else s'))"

text \<open>
  \<^verbatim>\<open>GetLock\<close> returns the pair \<^verbatim>\<open>(lock, err)\<close> and the new state.  The error of
  \<^verbatim>\<open>lockFile.Close()\<close> and that of \<^verbatim>\<open>os.Remove(file)\<close> are not looked at.  The
  composite literal sets \<^verbatim>\<open>link\<close> and \<^verbatim>\<open>file\<close>; \<^verbatim>\<open>acquired\<close> keeps its zero
  value.
\<close>

definition GetLock ::
  "world \<Rightarrow> string \<Rightarrow> string \<Rightarrow> proc \<Rightarrow> (Lock option \<times> os_error option) \<times> proc" where
  "GetLock w directory name s =
     (let the_file = path_Join w directory (name @ ''-'' @ decimal (pid w) @ ''.lock'') in
      case os_OpenFile w the_file (fs s) of
        (Inl err, f) \<Rightarrow> ((None, Some err), s\<lparr>fs := f\<rparr>)
      | (Inr lockFile, f) \<Rightarrow>
          (let the_link = path_Join w directory (name @ ''.lock'') in
           case os_Link w the_file the_link f of
             (None, f') \<Rightarrow>
               (let lock = \<lparr>link = the_link, file' = the_file, acquired = False\<rparr> in
                ((Some lock, None),
                 RegisterExitHandler (ReleaseLockClosure lock) (s\<lparr>fs := f'\<rparr>)))
           | (Some err, f') \<Rightarrow>
               ((None, Some err), s\<lparr>fs := snd (os_Remove the_file f')\<rparr>)))"

text \<open>
  \<^verbatim>\<open>InitProcess\<close> starts \<^verbatim>\<open>CreatePidFile\<close> in a goroutine of its own; \<open>run_goroutine\<close>
  is that goroutine running from its first to its last statement.
\<close>

definition InitProcess :: "world \<Rightarrow> string \<Rightarrow> string \<Rightarrow> proc \<Rightarrow> proc" where
  "InitProcess w name runPath s =
     (case GetLock w runPath name s of
        ((lock, Some err), s') \<Rightarrow> Error w s'
      | ((lock, None), s') \<Rightarrow>
          s'\<lparr>goroutines :=
               goroutines s' @ [CreatePidFileCall (filepath_Join w runPath (name @ ''.pid''))]\<rparr>)"

subsection \<open>Signals\<close>

definition call_signal_handler :: "world \<Rightarrow> signal_handler \<Rightarrow> proc \<Rightarrow> proc" where
  "call_signal_handler w h s =
     (case h of
        ExitClosure code \<Rightarrow> Exit w code s
      | SignalCallback n \<Rightarrow>
          (case callback w n (fs s) of
             None \<Rightarrow> s\<lparr>status := Crashed\<rparr>
           | Some (f, registered) \<Rightarrow>
               s\<lparr>fs := f, exitHandlers := exitHandlers s @ registered\<rparr>))"

text \<open>
  The loop of \<^verbatim>\<open>handleSignals\<close> never ends by itself.  The function below is the
  loop run on the signals the channel delivers, in order: it gives the state in which
  the loop waits for the next signal, or the last state of the process.
\<close>

fun handleSignals :: "world \<Rightarrow> nat list \<Rightarrow> proc \<Rightarrow> proc" where
  "handleSignals w [] s = s"
| "handleSignals w (sig # sigs) s =
     (if status s \<noteq> Running then s
      else (case SignalHandlers s sig of
              None \<Rightarrow> handleSignals w sigs s
            | Some handler \<Rightarrow> handleSignals w sigs (call_signal_handler w handler s)))"

definition run_goroutine :: "world \<Rightarrow> goroutine \<Rightarrow> nat list \<Rightarrow> proc \<Rightarrow> proc" where
  "run_goroutine w g sigs s =
     (case g of
        HandleSignals \<Rightarrow> handleSignals w sigs s
      | CreatePidFileCall path \<Rightarrow> CreatePidFile w path s)"

definition init :: "world \<Rightarrow> proc \<Rightarrow> proc" where
  "init w s =
     (case GetCPUCount w of
        Inl p \<Rightarrow> s\<lparr>status := Crashed\<rparr>
      | Inr count \<Rightarrow>
          s\<lparr>CPUCount := count,
            SignalHandlers :=
              (SignalHandlers s)(os_Interrupt \<mapsto> ExitClosure 0, SIGTERM \<mapsto> ExitClosure 0),
            goroutines := goroutines s @ [HandleSignals]\<rparr>)"

subsection \<open>Two goroutines in \<^verbatim>\<open>Exit\<close>\<close>

text \<open>
  A goroutine that has called \<^verbatim>\<open>Exit(code)\<close> is at one of three places: before the
  loop of \<^verbatim>\<open>RunExitHandlers\<close> (in \<^verbatim>\<open>log.Wait\<close>), in the loop with the rest of the
  slice still to call, or before \<^verbatim>\<open>os.Exit\<close>.  \<open>exit_step\<close> is one step of one
  goroutine; \<open>interleave\<close> runs the goroutines in the order a schedule gives, and no
  goroutine moves once the process has ended.
\<close>

datatype place = AtLogWait | InLoop "handler list" | AtOsExit

type_synonym exit_call = "int \<times> place"

fun exit_step :: "world \<Rightarrow> exit_call \<Rightarrow> proc \<Rightarrow> exit_call \<times> proc" where
  "exit_step w (code, AtLogWait) s = ((code, InLoop (exitHandlers s)), s)"
| "exit_step w (code, InLoop (h # hs)) s = ((code, InLoop hs), invoke w h s)"
| "exit_step w (code, InLoop []) s = ((code, AtOsExit), s)"
| "exit_step w (code, AtOsExit) s = ((code, AtOsExit), s\<lparr>status := Exited code\<rparr>)"

fun interleave ::
  "world \<Rightarrow> nat list \<Rightarrow> exit_call list \<Rightarrow> proc \<Rightarrow> exit_call list \<times> proc" where
  "interleave w [] calls s = (calls, s)"
| "interleave w (i # schedule) calls s =
     (if status s = Running \<and> i < length calls then
        (case exit_step w (calls ! i) s of
           (c, s') \<Rightarrow> interleave w schedule (calls[i := c]) s')
      else interleave w schedule calls s)"

section \<open>Names used in the statements\<close>

definition pid_lock_path :: "world \<Rightarrow> string \<Rightarrow> string \<Rightarrow> string" where
  \<comment> \<open>the PID-qualified lock file of \<^verbatim>\<open>GetLock\<close>\<close>
  "pid_lock_path w directory name =
     path_Join w directory (name @ ''-'' @ decimal (pid w) @ ''.lock'')"

definition stable_link_path :: "world \<Rightarrow> string \<Rightarrow> string \<Rightarrow> string" where
  \<comment> \<open>the stable link of \<^verbatim>\<open>GetLock\<close>\<close>
  "stable_link_path w directory name = path_Join w directory (name @ ''.lock'')"

definition register_all :: "handler list \<Rightarrow> proc \<Rightarrow> proc" where
  \<comment> \<open>one call of \<^verbatim>\<open>RegisterExitHandler\<close> for each handler, in the order of the list\<close>
  "register_all hs s = foldl (\<lambda>s h. RegisterExitHandler h s) s hs"

definition remaining :: "place \<Rightarrow> proc \<Rightarrow> handler list" where
  \<comment> \<open>the handlers a goroutine at this place of \<^verbatim>\<open>Exit\<close> has still to call\<close>
  "remaining p s =
     (case p of AtLogWait \<Rightarrow> exitHandlers s | InLoop hs \<Rightarrow> hs | AtOsExit \<Rightarrow> [])"

section \<open>Example worlds\<close>

definition join2 :: "string \<Rightarrow> string \<Rightarrow> string" where
  \<comment> \<open>what both \<^verbatim>\<open>Join\<close> functions give for two clean, non-empty elements\<close>
  "join2 directory name = directory @ ''/'' @ name"

definition quiet_world :: world where
  \<comment> \<open>a 64-bit Linux host where no system call fails and every callback returns\<close>
  "quiet_world =
     \<lparr>Platform = ''linux'', intSize = 64, pid = 4711,
      path_Join = join2, filepath_Join = join2,
      run = (\<lambda>args. Completed ''''),
      open_fails = (\<lambda>path. False), write_fails = (\<lambda>path. False),
      close_fails = (\<lambda>path. False), link_fails = (\<lambda>old new. False),
      callback = (\<lambda>n f. Some (f, []))\<rparr>"

definition negative_sysctl :: world where
  \<comment> \<open>a Darwin host whose \<^verbatim>\<open>sysctl -n hw.ncpu\<close> prints \<^verbatim>\<open>-4\<close> and a line feed\<close>
  "negative_sysctl =
     quiet_world\<lparr>Platform := ''darwin'', run := (\<lambda>args. Completed ''-4\<newline>'')\<rparr>"

definition empty_fs :: fsys where
  "empty_fs = \<lparr>entries = Map.empty, contents = (\<lambda>i. ''''), fresh = 0\<rparr>"

definition held_fs :: fsys where
  \<comment> \<open>process 17 holds the lock of \<^verbatim>\<open>svc\<close> in the directory \<^verbatim>\<open>run\<close>\<close>
  "held_fs =
     \<lparr>entries = [''run/svc-17.lock'' \<mapsto> 0, ''run/svc.lock'' \<mapsto> 0],
      contents = (\<lambda>i. ''''), fresh = 1\<rparr>"

definition no_open_world :: world where
  \<comment> \<open>a host on which no file can be opened\<close>
  "no_open_world = quiet_world\<lparr>open_fails := (\<lambda>path. True)\<rparr>"

definition next_world :: world where
  \<comment> \<open>the same host seen by a later process, whose process ID is another\<close>
  "next_world = quiet_world\<lparr>pid := 4712\<rparr>"

definition no_pid_world :: world where
  \<comment> \<open>a host on which the PID file of \<^verbatim>\<open>svc\<close> cannot be opened\<close>
  "no_pid_world = quiet_world\<lparr>open_fails := (\<lambda>path. path = ''run/svc.pid'')\<rparr>"

definition pid_failure_run :: proc where
  \<comment> \<open>\<^verbatim>\<open>InitProcess("svc", "run")\<close> in a new process, then the goroutine it started\<close>
  "pid_failure_run =
     CreatePidFile no_pid_world ''run/svc.pid''
       (InitProcess no_pid_world ''svc'' ''run'' (start empty_fs))"

definition svc_lock :: Lock where
  "svc_lock = \<lparr>link = ''run/svc.lock'', file' = ''run/svc-4711.lock'', acquired = False\<rparr>"

definition locked_state :: proc where
  \<comment> \<open>a new process that has acquired the lock of \<^verbatim>\<open>svc\<close>\<close>
  "locked_state = snd (GetLock quiet_world ''run'' ''svc'' (start empty_fs))"

definition two_exits :: "exit_call list" where
  \<comment> \<open>the signal goroutine has called \<^verbatim>\<open>Exit(0)\<close>, the main goroutine \<^verbatim>\<open>Exit(1)\<close>\<close>
  "two_exits = [(0, AtLogWait), (1, AtLogWait)]"

section \<open>Properties of the command runner\<close>

text \<open>
  Claim C6.  Every failure path of \<^verbatim>\<open>GetOutput\<close> (the pipe cannot be made, the
  program cannot be started, waiting for it fails, reading the pipe fails) returns the
  empty output and one and the same error value: a \<^verbatim>\<open>CommandError\<close> holding
  \<^verbatim>\<open>args[0]\<close> and the whole argument list.  The cause is not recorded.  The argument
  list is not empty, as the contract of the function requires.
\<close>

theorem GetOutput_failure_single_kind:
  assumes "args \<noteq> []"
    and "os args \<in> {PipeFailed, StartFailed, WaitFailed, CopyFailed}"
  shows "GetOutput os args = Inr ('''', Some \<lparr>Command = hd args, Args = args\<rparr>)"
  using assms by (cases args) (auto simp: GetOutput_def GetOutput_Error_def)

theorem GetOutput_failure_single_kind_witness:
  "[''/no/such/program'', ''-v''] \<noteq> []
   \<and> (\<lambda>args. StartFailed) [''/no/such/program'', ''-v'']
        \<in> {PipeFailed, StartFailed, WaitFailed, CopyFailed}
   \<and> GetOutput (\<lambda>args. StartFailed) [''/no/such/program'', ''-v'']
        = Inr ('''', Some \<lparr>Command = ''/no/such/program'',
                             Args = [''/no/such/program'', ''-v'']\<rparr>)"
  using GetOutput_failure_single_kind [of "[''/no/such/program'', ''-v'']" "\<lambda>args. StartFailed"]
  by simp

section \<open>Properties of the CPU count\<close>

lemma TrimSpace_minus_four: "TrimSpace ''-4\<newline>'' = ''-4''"
proof -
  have "leading_space ''-4\<newline>'' = 0"
    by (simp add: leading_space_def space_runes_def HasPrefix_def)
  then have left: "TrimLeft ''-4\<newline>'' = ''-4\<newline>''"
    by (subst TrimLeft.simps) simp
  have "trailing_space ''-4\<newline>'' = 1"
    by (simp add: trailing_space_def space_runes_def HasSuffix_def)
  then have "TrimRight ''-4\<newline>'' = TrimRight ''-4''"
    by (subst TrimRight.simps) simp
  moreover have "trailing_space ''-4'' = 0"
    by (simp add: trailing_space_def space_runes_def HasSuffix_def)
  then have "TrimRight ''-4'' = ''-4''"
    by (subst TrimRight.simps) simp
  ultimately show ?thesis
    by (simp add: TrimSpace_def left)
qed

lemma Atoi_minus_four: "Atoi 64 ''-4'' = Some (- 4)"
  by (simp add: Atoi_def digit_value_def)

lemma count_processors_ge: "count \<le> count_processors lines count"
proof (induction lines arbitrary: count)
  case Nil
  show ?case by simp
next
  case (Cons line lines)
  have "count \<le> count + 1" by simp
  also have "count + 1 \<le> count_processors lines (count + 1)" by (rule Cons.IH)
  finally have "count \<le> count_processors lines (count + 1)" .
  with Cons.IH [of count] show ?case by simp
qed

lemma GetCPUCount_never_panics: "GetCPUCount w \<noteq> Inl p"
  by (auto simp: GetCPUCount_def GetOutput_def GetOutput_Error_def Let_def
      split: run_result.splits option.splits sum.splits prod.splits)

lemma GetCPUCount_linux_positive:
  assumes "Platform w \<noteq> ''darwin''" and "Platform w \<noteq> ''freebsd''"
  shows "\<exists>count. GetCPUCount w = Inr count \<and> 1 \<le> count"
proof -
  have pos: "0 \<le> count_processors lines 0" for lines
    using count_processors_ge [of 0 lines] .
  have "1 \<le> count_processors lines 0" if "count_processors lines 0 \<noteq> 0" for lines
    using that pos [of lines] by arith
  with assms show ?thesis
    by (auto simp: GetCPUCount_def GetOutput_def GetOutput_Error_def Let_def
        split: run_result.splits option.splits sum.splits prod.splits)
qed

text \<open>
  Claim C5 says that \<^verbatim>\<open>GetCPUCount\<close> returns at least 1 whatever the introspection
  command prints.  On Darwin and FreeBSD the code returns the parsed integer unless it is
  zero, so a negative number printed by \<^verbatim>\<open>sysctl\<close> is returned as it is: on the host
  \<open>negative_sysctl\<close> the function returns \<open>-4\<close>.  (On every other platform the result
  is at least 1, see \<open>GetCPUCount_linux_positive\<close>.)
\<close>

theorem GetCPUCount_negative_sysctl: "GetCPUCount negative_sysctl = Inr (- 4)"
  by (simp add: GetCPUCount_def negative_sysctl_def quiet_world_def GetOutput_def
      TrimSpace_minus_four Atoi_minus_four)

section \<open>Properties of the process lock\<close>

lemma os_Remove_fields [simp]:
  "entries (snd (os_Remove path f)) = (entries f)(path := None)"
  "contents (snd (os_Remove path f)) = contents f"
  "fresh (snd (os_Remove path f)) = fresh f"
  by (auto simp: os_Remove_def split: option.splits)

lemma os_Remove_missing: "entries f path = None \<Longrightarrow> os_Remove path f = (Some (RemoveError path), f)"
  by (simp add: os_Remove_def)

lemma ReleaseLock_fields [simp]:
  "entries (ReleaseLock lock f) = (entries f)(file' lock := None, link lock := None)"
  "contents (ReleaseLock lock f) = contents f"
  "fresh (ReleaseLock lock f) = fresh f"
  by (simp_all add: ReleaseLock_def)

lemma os_OpenFile_cases:
  "os_OpenFile w path f = (r, f') \<Longrightarrow>
     (r = Inl (OpenError path) \<and> f' = f \<and> open_fails w path)
   \<or> (\<exists>i. r = Inr i \<and> \<not> open_fails w path \<and> entries f path = Some i \<and> f' = f)
   \<or> (r = Inr (fresh f) \<and> \<not> open_fails w path \<and> entries f path = None
       \<and> f' = f\<lparr>entries := (entries f)(path \<mapsto> fresh f),
                 contents := (contents f)(fresh f := ''''), fresh := Suc (fresh f)\<rparr>)"
  by (auto simp: os_OpenFile_def split: if_splits option.splits)

lemma os_Link_cases:
  "os_Link w old new f = (r, f') \<Longrightarrow>
     (r = Some (LinkError old new) \<and> f' = f)
   \<or> (\<exists>i. r = None \<and> entries f old = Some i \<and> entries f new = None \<and> \<not> link_fails w old new
       \<and> f' = f\<lparr>entries := (entries f)(new \<mapsto> i)\<rparr>)"
  by (auto simp: os_Link_def split: if_splits option.splits)

lemma GetLock_LinkError_state:
  assumes "snd (fst (GetLock w directory name s)) = Some (LinkError old new)"
  shows "fst (fst (GetLock w directory name s)) = None
    \<and> \<not> open_fails w (pid_lock_path w directory name)
    \<and> fs (snd (GetLock w directory name s))
        = snd (os_Remove (pid_lock_path w directory name)
            (snd (os_OpenFile w (pid_lock_path w directory name) (fs s))))"
  using assms
  by (auto simp: GetLock_def Let_def RegisterExitHandler_def pid_lock_path_def
      stable_link_path_def os_OpenFile_def os_Link_def
      split: prod.splits sum.splits option.splits if_splits)

lemma os_OpenFile_fields:
  assumes "\<not> open_fails w path"
  shows "entries (snd (os_OpenFile w path f)) path \<noteq> None"
    and "p \<noteq> path \<Longrightarrow> entries (snd (os_OpenFile w path f)) p = entries f p"
    and "i \<noteq> fresh f \<Longrightarrow> contents (snd (os_OpenFile w path f)) i = contents f i"
    and "entries f path \<noteq> None \<Longrightarrow> snd (os_OpenFile w path f) = f"
  using assms by (auto simp: os_OpenFile_def split: option.splits)

lemma start_fields:
  "fs (start f) = f" "exitHandlers (start f) = []" "invoked (start f) = []"
  "status (start f) = Running" "SignalHandlers (start f) = Map.empty"
  "goroutines (start f) = []"
  by (simp_all add: start_def)

lemma quiet_paths:
  "pid_lock_path quiet_world ''run'' ''svc'' = ''run/svc-4711.lock''"
  "stable_link_path quiet_world ''run'' ''svc'' = ''run/svc.lock''"
  "pid_lock_path no_open_world ''run'' ''svc'' = ''run/svc-4711.lock''"
  "stable_link_path no_open_world ''run'' ''svc'' = ''run/svc.lock''"
  by (simp_all add: pid_lock_path_def stable_link_path_def quiet_world_def no_open_world_def
      join2_def decimal.simps)

lemma GetLock_held:
  "fst (GetLock quiet_world ''run'' ''svc'' (start held_fs))
     = (None, Some (LinkError ''run/svc-4711.lock'' ''run/svc.lock''))"
  by (simp add: GetLock_def Let_def os_OpenFile_def os_Link_def quiet_world_def join2_def
      decimal.simps start_def held_fs_def)

lemma GetLock_no_open:
  "fst (GetLock no_open_world ''run'' ''svc'' (start empty_fs))
     = (None, Some (OpenError ''run/svc-4711.lock''))"
  by (simp add: GetLock_def Let_def os_OpenFile_def no_open_world_def quiet_world_def
      join2_def decimal.simps)

lemma held_fs_allocated: "\<forall>i \<in> ran (entries (fs (start held_fs))). i < fresh (fs (start held_fs))"
  by (auto simp: ran_def start_def held_fs_def split: if_splits)

text \<open>
  Claim C4.  \<^verbatim>\<open>ReleaseLock\<close> removes the stable link and the PID-qualified lock file,
  and it is idempotent.  After one call both paths are gone; a second call finds neither,
  the two \<^verbatim>\<open>os.Remove\<close> calls return errors that \<^verbatim>\<open>ReleaseLock\<close> does not look
  at, and the file system is the one the first call left.
\<close>

theorem ReleaseLock_removes_both_idempotent:
  "entries (ReleaseLock lock f) (link lock) = None
   \<and> entries (ReleaseLock lock f) (file' lock) = None
   \<and> os_Remove (file' lock) (ReleaseLock lock f)
       = (Some (RemoveError (file' lock)), ReleaseLock lock f)
   \<and> os_Remove (link lock) (ReleaseLock lock f)
       = (Some (RemoveError (link lock)), ReleaseLock lock f)
   \<and> ReleaseLock lock (ReleaseLock lock f) = ReleaseLock lock f"
proof -
  have a: "entries (ReleaseLock lock f) (link lock) = None" by simp
  have b: "entries (ReleaseLock lock f) (file' lock) = None" by simp
  have c: "os_Remove (file' lock) (ReleaseLock lock f)
       = (Some (RemoveError (file' lock)), ReleaseLock lock f)"
    using b by (rule os_Remove_missing)
  have d: "os_Remove (link lock) (ReleaseLock lock f)
       = (Some (RemoveError (link lock)), ReleaseLock lock f)"
    using a by (rule os_Remove_missing)
  have "ReleaseLock lock (ReleaseLock lock f) = ReleaseLock lock f"
    by (subst (1) ReleaseLock_def) (simp add: c d)
  with a b c d show ?thesis by simp
qed

text \<open>
  Claim C10.  When \<^verbatim>\<open>GetLock\<close> returns an error, the returned lock is \<^verbatim>\<open>nil\<close> and
  the exit-handler chain is the one before the call.  The error is that of opening the
  PID-qualified file or that of making the link: there is no other failure path.
\<close>

theorem GetLock_failure_registers_nothing:
  assumes "snd (fst (GetLock w directory name s)) \<noteq> None"
  shows "fst (fst (GetLock w directory name s)) = None
    \<and> exitHandlers (snd (GetLock w directory name s)) = exitHandlers s
    \<and> snd (fst (GetLock w directory name s))
        \<in> {Some (OpenError (pid_lock_path w directory name)),
           Some (LinkError (pid_lock_path w directory name) (stable_link_path w directory name))}"
  using assms
  by (auto simp: GetLock_def Let_def RegisterExitHandler_def pid_lock_path_def
      stable_link_path_def os_OpenFile_def os_Link_def
      split: prod.splits sum.splits option.splits if_splits)

theorem GetLock_failure_registers_nothing_witness:
  "snd (fst (GetLock no_open_world ''run'' ''svc'' (start empty_fs)))
     = Some (OpenError ''run/svc-4711.lock'')
   \<and> fst (fst (GetLock no_open_world ''run'' ''svc'' (start empty_fs))) = None
   \<and> exitHandlers (snd (GetLock no_open_world ''run'' ''svc'' (start empty_fs))) = []
   \<and> snd (fst (GetLock quiet_world ''run'' ''svc'' (start held_fs)))
       = Some (LinkError ''run/svc-4711.lock'' ''run/svc.lock'')
   \<and> fst (fst (GetLock quiet_world ''run'' ''svc'' (start held_fs))) = None
   \<and> exitHandlers (snd (GetLock quiet_world ''run'' ''svc'' (start held_fs))) = []"
  using GetLock_failure_registers_nothing [of no_open_world "''run''" "''svc''" "start empty_fs"]
    GetLock_failure_registers_nothing [of quiet_world "''run''" "''svc''" "start held_fs"]
  by (simp add: GetLock_held GetLock_no_open quiet_paths start_fields)

text \<open>
  Claim C3.  When \<^verbatim>\<open>GetLock\<close> fails to make the stable link, it returns the error and
  no lock, and the PID-qualified file is gone: the directory entries after the call are
  those before it without that path, and so is what every path shows.  When the
  PID-qualified file was not there before the call (the call made it), the file system
  after the call is the one before it.  The inodes in use are below the next free one.
\<close>

theorem GetLock_link_failure_undone:
  assumes failed: "snd (fst (GetLock w directory name s))
      = Some (LinkError (pid_lock_path w directory name) (stable_link_path w directory name))"
    and allocated: "\<forall>i \<in> ran (entries (fs s)). i < fresh (fs s)"
  shows "fst (fst (GetLock w directory name s)) = None
    \<and> entries (fs (snd (GetLock w directory name s)))
        = (entries (fs s))(pid_lock_path w directory name := None)
    \<and> visible (fs (snd (GetLock w directory name s)))
        = (visible (fs s))(pid_lock_path w directory name := None)
    \<and> (entries (fs s) (pid_lock_path w directory name) = None \<longrightarrow>
          entries (fs (snd (GetLock w directory name s))) = entries (fs s)
        \<and> visible (fs (snd (GetLock w directory name s))) = visible (fs s))"
proof -
  let ?file = "pid_lock_path w directory name"
  let ?opened = "snd (os_OpenFile w ?file (fs s))"
  let ?after = "fs (snd (GetLock w directory name s))"
  from GetLock_LinkError_state [OF failed]
  have absent: "fst (fst (GetLock w directory name s)) = None"
    and opens: "\<not> open_fails w ?file"
    and after: "?after = snd (os_Remove ?file ?opened)"
    by simp_all
  have ent: "entries ?after = (entries (fs s))(?file := None)"
  proof
    fix p
    show "entries ?after p = ((entries (fs s))(?file := None)) p"
      using os_OpenFile_fields(2) [OF opens, of p "fs s"] by (simp add: after)
  qed
  have vis: "visible ?after = (visible (fs s))(?file := None)"
  proof
    fix p
    show "visible ?after p = ((visible (fs s))(?file := None)) p"
    proof (cases "p = ?file")
      case True
      then show ?thesis by (simp add: visible_def ent)
    next
      case False
      show ?thesis
      proof (cases "entries (fs s) p")
        case None
        with False show ?thesis by (simp add: visible_def ent)
      next
        case (Some i)
        then have "i \<in> ran (entries (fs s))" by (auto simp: ran_def)
        with allocated have "i \<noteq> fresh (fs s)" by auto
        then have "contents ?opened i = contents (fs s) i"
          by (rule os_OpenFile_fields(3) [OF opens])
        moreover from False have "entries ?opened p = entries (fs s) p"
          by (rule os_OpenFile_fields(2) [OF opens])
        ultimately show ?thesis using False Some by (simp add: visible_def after)
      qed
    qed
  qed
  have "entries ?after = entries (fs s) \<and> visible ?after = visible (fs s)"
    if "entries (fs s) ?file = None"
  proof -
    from that have "visible (fs s) ?file = None" by (simp add: visible_def)
    with that show ?thesis by (simp add: ent vis fun_upd_idem)
  qed
  with absent ent vis show ?thesis by blast
qed

theorem GetLock_link_failure_undone_witness:
  "snd (fst (GetLock quiet_world ''run'' ''svc'' (start held_fs)))
     = Some (LinkError ''run/svc-4711.lock'' ''run/svc.lock'')
   \<and> fst (fst (GetLock quiet_world ''run'' ''svc'' (start held_fs))) = None
   \<and> entries held_fs ''run/svc-4711.lock'' = None
   \<and> entries (fs (snd (GetLock quiet_world ''run'' ''svc'' (start held_fs)))) = entries held_fs
   \<and> visible (fs (snd (GetLock quiet_world ''run'' ''svc'' (start held_fs)))) = visible held_fs"
proof -
  have absent: "entries held_fs ''run/svc-4711.lock'' = None"
    by (simp add: held_fs_def)
  have failed: "snd (fst (GetLock quiet_world ''run'' ''svc'' (start held_fs)))
      = Some (LinkError (pid_lock_path quiet_world ''run'' ''svc'')
          (stable_link_path quiet_world ''run'' ''svc''))"
    by (simp add: GetLock_held quiet_paths)
  note undone =
    GetLock_link_failure_undone [OF failed held_fs_allocated, unfolded quiet_paths start_fields]
  from undone absent
  have "entries (fs (snd (GetLock quiet_world ''run'' ''svc'' (start held_fs)))) = entries held_fs
      \<and> visible (fs (snd (GetLock quiet_world ''run'' ''svc'' (start held_fs)))) = visible held_fs"
    by blast
  with absent show ?thesis by (simp add: GetLock_held)
qed

section \<open>Properties of the exit-handler chain\<close>

lemma invoked_invoke: "invoked (invoke w h s) = invoked s @ [h]"
  by (simp add: invoke_def Let_def split: handler.splits option.splits prod.splits)

lemma status_invoke_release: "status (invoke w (ReleaseLockClosure lock) s) = status s"
  by (simp add: invoke_def Let_def)

lemma fs_invoke_release: "fs (invoke w (ReleaseLockClosure lock) s) = ReleaseLock lock (fs s)"
  by (simp add: invoke_def Let_def)

lemma status_invoke_returns:
  assumes "\<forall>n f. h = Callback n \<longrightarrow> callback w n f \<noteq> None"
  shows "status (invoke w h s) = status s"
proof (cases h)
  case (ReleaseLockClosure lock)
  then show ?thesis by (simp add: status_invoke_release)
next
  case (Callback n)
  with assms have "callback w n (fs s) \<noteq> None" by blast
  with Callback show ?thesis
    by (auto simp: invoke_def Let_def split: option.splits prod.splits)
qed

lemma run_handlers_returns:
  assumes "status s = Running"
    and "\<forall>n f. Callback n \<in> set hs \<longrightarrow> callback w n f \<noteq> None"
  shows "status (run_handlers w hs s) = Running
    \<and> invoked (run_handlers w hs s) = invoked s @ hs"
  using assms
proof (induction hs arbitrary: s)
  case Nil
  then show ?case by simp
next
  case (Cons h hs)
  from Cons.prems have "status (invoke w h s) = Running"
    by (simp add: status_invoke_returns)
  moreover from Cons.prems
  have "\<forall>n f. Callback n \<in> set hs \<longrightarrow> callback w n f \<noteq> None" by simp
  ultimately have "status (run_handlers w hs (invoke w h s)) = Running
    \<and> invoked (run_handlers w hs (invoke w h s)) = invoked (invoke w h s) @ hs"
    by (rule Cons.IH)
  with \<open>status (invoke w h s) = Running\<close> show ?case
    by (simp add: Let_def invoked_invoke)
qed

lemma run_handlers_append:
  assumes "status s = Running"
  shows "run_handlers w (hs @ hs') s =
     (if status (run_handlers w hs s) = Running
      then run_handlers w hs' (run_handlers w hs s) else run_handlers w hs s)"
  using assms by (induction hs arbitrary: s) (auto simp: Let_def)

lemma register_all_fields:
  "exitHandlers (register_all hs s) = exitHandlers s @ hs"
  "invoked (register_all hs s) = invoked s"
  "status (register_all hs s) = status s"
  "fs (register_all hs s) = fs s"
  by (induction hs arbitrary: s) (simp_all add: register_all_def RegisterExitHandler_def)

lemma quiet_callback: "callback quiet_world n f = Some (f, [])"
  by (simp add: quiet_world_def)

lemma GetLock_success:
  assumes "\<not> open_fails w (pid_lock_path w directory name)"
    and "\<not> link_fails w (pid_lock_path w directory name) (stable_link_path w directory name)"
    and "entries (fs s) (stable_link_path w directory name) = None"
    and "pid_lock_path w directory name \<noteq> stable_link_path w directory name"
  shows "fst (GetLock w directory name s)
      = (Some \<lparr>link = stable_link_path w directory name,
                file' = pid_lock_path w directory name, acquired = False\<rparr>, None)"
    and "exitHandlers (snd (GetLock w directory name s))
      = exitHandlers s @ [ReleaseLockClosure
          \<lparr>link = stable_link_path w directory name,
           file' = pid_lock_path w directory name, acquired = False\<rparr>]"
    and "entries (fs (snd (GetLock w directory name s))) (stable_link_path w directory name)
      = entries (fs (snd (GetLock w directory name s))) (pid_lock_path w directory name)"
    and "entries (fs (snd (GetLock w directory name s))) (pid_lock_path w directory name) \<noteq> None"
    and "status (snd (GetLock w directory name s)) = status s"
    and "invoked (snd (GetLock w directory name s)) = invoked s"
  using assms
  by (auto simp: GetLock_def Let_def RegisterExitHandler_def pid_lock_path_def
      stable_link_path_def os_OpenFile_def os_Link_def
      split: prod.splits sum.splits option.splits if_splits)

lemma next_paths:
  "pid_lock_path next_world ''run'' ''svc'' = ''run/svc-4712.lock''"
  "stable_link_path next_world ''run'' ''svc'' = ''run/svc.lock''"
  by (simp_all add: pid_lock_path_def stable_link_path_def quiet_world_def next_world_def
      join2_def decimal.simps)

lemma quiet_no_faults:
  "\<not> open_fails quiet_world path" "\<not> link_fails quiet_world old new"
  "\<not> close_fails quiet_world path" "\<not> write_fails quiet_world path"
  "\<not> open_fails next_world path" "\<not> link_fails next_world old new"
  by (simp_all add: quiet_world_def next_world_def)

text \<open>
  Claim C2.  After the handlers \<open>hs\<close> have been registered with
  \<^verbatim>\<open>RegisterExitHandler\<close>, one call of \<^verbatim>\<open>RunExitHandlers\<close> calls every handler of
  the chain once, in the order of registration, and returns: the calls it adds to the
  record are the chain itself.  The handlers are expected to return; a handler that
  panics ends the process at that call.
\<close>

theorem RunExitHandlers_registration_order:
  assumes "status s = Running"
    and "\<forall>n f. Callback n \<in> set (exitHandlers s @ hs) \<longrightarrow> callback w n f \<noteq> None"
  shows "exitHandlers (register_all hs s) = exitHandlers s @ hs
    \<and> invoked (RunExitHandlers w (register_all hs s)) = invoked s @ exitHandlers s @ hs
    \<and> status (RunExitHandlers w (register_all hs s)) = Running"
proof -
  have "status (register_all hs s) = Running"
    using assms(1) by (simp add: register_all_fields)
  moreover have "\<forall>n f. Callback n \<in> set (exitHandlers (register_all hs s))
      \<longrightarrow> callback w n f \<noteq> None"
    using assms(2) by (simp add: register_all_fields)
  ultimately show ?thesis
    using run_handlers_returns [of "register_all hs s" "exitHandlers (register_all hs s)" w]
    by (simp add: RunExitHandlers_def register_all_fields)
qed

theorem RunExitHandlers_registration_order_witness:
  "status (start empty_fs) = Running
   \<and> exitHandlers (register_all [Callback 0, Callback 1, Callback 2] (start empty_fs))
       = [Callback 0, Callback 1, Callback 2]
   \<and> invoked (RunExitHandlers quiet_world
         (register_all [Callback 0, Callback 1, Callback 2] (start empty_fs)))
       = [Callback 0, Callback 1, Callback 2]"
  using RunExitHandlers_registration_order
    [of "start empty_fs" "[Callback 0, Callback 1, Callback 2]" quiet_world]
  by (simp add: start_fields quiet_callback)

text \<open>
  Claim C9.  When the PID-qualified file can be opened, the stable link is free and the
  link call is not refused, \<^verbatim>\<open>GetLock\<close> returns the lock of the two paths and no
  error, the stable link names the inode of the PID-qualified file, and the closure that
  releases this lock is the last handler of the chain.  Running the chain then calls it
  after the handlers registered before, both paths are gone, and a later
  \<^verbatim>\<open>GetLock\<close> for the same directory and name (by this process or by one with
  another process ID) succeeds.  The two paths differ, as paths made by \<^verbatim>\<open>path.Join\<close>
  from these two file names do.  The field \<^verbatim>\<open>acquired\<close> of the returned lock has its
  zero value: the code never sets it, and a lock is returned only when it was acquired.
\<close>

theorem GetLock_success_released_by_exit_chain:
  fixes w w' :: world and directory name :: string and s t :: proc
  defines "the_file \<equiv> pid_lock_path w directory name"
    and "the_link \<equiv> stable_link_path w directory name"
    and "lock \<equiv> \<lparr>link = stable_link_path w directory name,
                    file' = pid_lock_path w directory name, acquired = False\<rparr>"
    and "acquired_state \<equiv> snd (GetLock w directory name s)"
  assumes running: "status s = Running"
    and returns: "\<forall>n f. Callback n \<in> set (exitHandlers s) \<longrightarrow> callback w n f \<noteq> None"
    and opens: "\<not> open_fails w the_file"
    and links: "\<not> link_fails w the_file the_link"
    and free: "entries (fs s) the_link = None"
    and apart: "the_file \<noteq> the_link"
    and later: "fs t = fs (RunExitHandlers w acquired_state)"
    and same_link: "stable_link_path w' directory name = the_link"
    and opens': "\<not> open_fails w' (pid_lock_path w' directory name)"
    and links': "\<not> link_fails w' (pid_lock_path w' directory name) the_link"
    and apart': "pid_lock_path w' directory name \<noteq> the_link"
  shows "fst (GetLock w directory name s) = (Some lock, None)
    \<and> exitHandlers acquired_state = exitHandlers s @ [ReleaseLockClosure lock]
    \<and> entries (fs acquired_state) the_link = entries (fs acquired_state) the_file
    \<and> entries (fs acquired_state) the_file \<noteq> None
    \<and> invoked (RunExitHandlers w acquired_state)
        = invoked s @ exitHandlers s @ [ReleaseLockClosure lock]
    \<and> entries (fs (RunExitHandlers w acquired_state)) the_file = None
    \<and> entries (fs (RunExitHandlers w acquired_state)) the_link = None
    \<and> fst (GetLock w' directory name t)
        = (Some \<lparr>link = the_link, file' = pid_lock_path w' directory name, acquired = False\<rparr>,
           None)"
proof -
  note got = GetLock_success [of w directory name s,
      OF opens [unfolded the_file_def] links [unfolded the_file_def the_link_def]
        free [unfolded the_link_def] apart [unfolded the_file_def the_link_def]]
  have handlers: "exitHandlers acquired_state = exitHandlers s @ [ReleaseLockClosure lock]"
    unfolding acquired_state_def lock_def by (rule got(2))
  have run1: "status acquired_state = Running"
    unfolding acquired_state_def using got(5) running by simp
  let ?before = "run_handlers w (exitHandlers s) acquired_state"
  have before: "status ?before = Running \<and> invoked ?before = invoked acquired_state @ exitHandlers s"
    using run1 returns by (rule run_handlers_returns)
  have chain: "RunExitHandlers w acquired_state = invoke w (ReleaseLockClosure lock) ?before"
    using before by (simp add: RunExitHandlers_def handlers run_handlers_append [OF run1] Let_def)
  have trace: "invoked (RunExitHandlers w acquired_state)
      = invoked s @ exitHandlers s @ [ReleaseLockClosure lock]"
  proof -
    have "invoked acquired_state = invoked s"
      unfolding acquired_state_def by (rule got(6))
    with before show ?thesis by (simp add: chain invoked_invoke)
  qed
  have gone: "entries (fs (RunExitHandlers w acquired_state)) the_file = None"
    "entries (fs (RunExitHandlers w acquired_state)) the_link = None"
    by (simp_all add: chain fs_invoke_release lock_def the_file_def the_link_def)
  from gone(2) later have free': "entries (fs t) (stable_link_path w' directory name) = None"
    by (simp add: same_link)
  have "fst (GetLock w' directory name t)
      = (Some \<lparr>link = stable_link_path w' directory name,
                file' = pid_lock_path w' directory name, acquired = False\<rparr>, None)"
    using opens' links' [folded same_link] free' apart' [folded same_link]
    by (rule GetLock_success(1))
  then have again: "fst (GetLock w' directory name t)
      = (Some \<lparr>link = the_link, file' = pid_lock_path w' directory name, acquired = False\<rparr>,
         None)"
    by (simp add: same_link)
  have first: "fst (GetLock w directory name s) = (Some lock, None)"
    unfolding lock_def by (rule got(1))
  have linked: "entries (fs acquired_state) the_link = entries (fs acquired_state) the_file"
    "entries (fs acquired_state) the_file \<noteq> None"
    unfolding acquired_state_def the_file_def the_link_def by (rule got(3), rule got(4))
  from first handlers linked trace gone again show ?thesis by simp
qed

theorem GetLock_success_released_by_exit_chain_witness:
  "fst (GetLock quiet_world ''run'' ''svc'' (start empty_fs))
     = (Some \<lparr>link = ''run/svc.lock'', file' = ''run/svc-4711.lock'', acquired = False\<rparr>, None)
   \<and> exitHandlers (snd (GetLock quiet_world ''run'' ''svc'' (start empty_fs)))
       = [ReleaseLockClosure
            \<lparr>link = ''run/svc.lock'', file' = ''run/svc-4711.lock'', acquired = False\<rparr>]
   \<and> entries (fs (RunExitHandlers quiet_world
         (snd (GetLock quiet_world ''run'' ''svc'' (start empty_fs))))) ''run/svc-4711.lock''
       = None
   \<and> entries (fs (RunExitHandlers quiet_world
         (snd (GetLock quiet_world ''run'' ''svc'' (start empty_fs))))) ''run/svc.lock''
       = None
   \<and> fst (GetLock next_world ''run'' ''svc''
         (start (fs (RunExitHandlers quiet_world
            (snd (GetLock quiet_world ''run'' ''svc'' (start empty_fs)))))))
       = (Some \<lparr>link = ''run/svc.lock'', file' = ''run/svc-4712.lock'', acquired = False\<rparr>,
          None)"
  using GetLock_success_released_by_exit_chain
    [of "start empty_fs" quiet_world "''run''" "''svc''"
      "start (fs (RunExitHandlers quiet_world
         (snd (GetLock quiet_world ''run'' ''svc'' (start empty_fs)))))" next_world]
  by (simp add: start_fields quiet_paths next_paths quiet_no_faults empty_fs_def)

section \<open>Properties of the signal handlers\<close>

lemma init_fields:
  "SignalHandlers (init w s)
     = (SignalHandlers s)(os_Interrupt \<mapsto> ExitClosure 0, SIGTERM \<mapsto> ExitClosure 0)"
  "goroutines (init w s) = goroutines s @ [HandleSignals]"
  "exitHandlers (init w s) = exitHandlers s"
  "invoked (init w s) = invoked s"
  "status (init w s) = status s"
  "fs (init w s) = fs s"
  using GetCPUCount_never_panics [of w]
  by (auto simp: init_def split: sum.splits)

lemma register_all_SignalHandlers:
  "SignalHandlers (register_all hs s) = SignalHandlers s"
  by (induction hs arbitrary: s) (simp_all add: register_all_def RegisterExitHandler_def)

lemma Exit_returns:
  assumes "status s = Running"
    and "\<forall>n f. Callback n \<in> set (exitHandlers s) \<longrightarrow> callback w n f \<noteq> None"
  shows "status (Exit w code s) = Exited code"
    and "invoked (Exit w code s) = invoked s @ exitHandlers s"
  using run_handlers_returns [OF assms]
  by (simp_all add: Exit_def RunExitHandlers_def Let_def)

text \<open>
  Claim C7.  \<^verbatim>\<open>init\<close> sets the handlers of the interrupt signal and of the
  termination signal to closures that call \<^verbatim>\<open>Exit(0)\<close>, and starts the goroutine
  that dispatches signals.  When that goroutine then receives one of the two signals, it
  calls every exit handler registered since, in order, and the process ends with exit
  code 0.  The handlers are expected to return.
\<close>

theorem default_signal_handlers_exit_zero:
  fixes w :: world and f :: fsys and hs :: "handler list" and sig :: nat
  defines "initialised \<equiv> init w (start f)"
  assumes "sig \<in> {os_Interrupt, SIGTERM}"
    and "\<forall>n f. Callback n \<in> set hs \<longrightarrow> callback w n f \<noteq> None"
  shows "SignalHandlers initialised os_Interrupt = Some (ExitClosure 0)
    \<and> SignalHandlers initialised SIGTERM = Some (ExitClosure 0)
    \<and> goroutines initialised = [HandleSignals]
    \<and> status initialised = Running
    \<and> status (run_goroutine w HandleSignals [sig] (register_all hs initialised)) = Exited 0
    \<and> invoked (run_goroutine w HandleSignals [sig] (register_all hs initialised)) = hs"
proof -
  let ?s = "register_all hs initialised"
  have table: "SignalHandlers initialised os_Interrupt = Some (ExitClosure 0)"
    "SignalHandlers initialised SIGTERM = Some (ExitClosure 0)"
    by (simp_all add: initialised_def init_fields os_Interrupt_def SIGTERM_def)
  have started: "goroutines initialised = [HandleSignals]" "status initialised = Running"
    by (simp_all add: initialised_def init_fields start_fields)
  have "SignalHandlers ?s sig = Some (ExitClosure 0)"
    using assms(2) table by (auto simp: register_all_SignalHandlers)
  moreover have running: "status ?s = Running"
    by (simp add: register_all_fields started)
  ultimately have "run_goroutine w HandleSignals [sig] ?s = Exit w 0 ?s"
    by (simp add: run_goroutine_def call_signal_handler_def)
  moreover have "\<forall>n f. Callback n \<in> set (exitHandlers ?s) \<longrightarrow> callback w n f \<noteq> None"
    using assms(3) by (simp add: register_all_fields initialised_def init_fields start_fields)
  note Exit_returns [OF running this, of 0]
  moreover have "invoked ?s @ exitHandlers ?s = hs"
    by (simp add: register_all_fields initialised_def init_fields start_fields)
  ultimately show ?thesis using table started by simp
qed

theorem default_signal_handlers_exit_zero_witness:
  "SIGTERM \<in> {os_Interrupt, SIGTERM}
   \<and> status (run_goroutine quiet_world HandleSignals [SIGTERM]
         (register_all [ReleaseLockClosure svc_lock, Callback 0]
            (init quiet_world (start empty_fs)))) = Exited 0
   \<and> invoked (run_goroutine quiet_world HandleSignals [SIGTERM]
         (register_all [ReleaseLockClosure svc_lock, Callback 0]
            (init quiet_world (start empty_fs)))) = [ReleaseLockClosure svc_lock, Callback 0]"
  using default_signal_handlers_exit_zero
    [of SIGTERM "[ReleaseLockClosure svc_lock, Callback 0]" quiet_world empty_fs]
  by (simp add: quiet_callback)

section \<open>Properties of the PID file\<close>

lemma os_OpenFile_fails: "open_fails w path \<Longrightarrow> os_OpenFile w path f = (Inl (OpenError path), f)"
  by (simp add: os_OpenFile_def)

lemma os_OpenFile_opens: "\<not> open_fails w path \<Longrightarrow> \<exists>i f'. os_OpenFile w path f = (Inr i, f')"
  by (simp add: os_OpenFile_def split: option.splits)

lemma InitProcess_no_pid:
  "status (InitProcess no_pid_world ''svc'' ''run'' (start empty_fs)) = Running"
  "exitHandlers (InitProcess no_pid_world ''svc'' ''run'' (start empty_fs))
     = [ReleaseLockClosure svc_lock]"
  "goroutines (InitProcess no_pid_world ''svc'' ''run'' (start empty_fs))
     = [CreatePidFileCall ''run/svc.pid'']"
  "invoked (InitProcess no_pid_world ''svc'' ''run'' (start empty_fs)) = []"
  "entries (fs (InitProcess no_pid_world ''svc'' ''run'' (start empty_fs)))
     = [''run/svc-4711.lock'' \<mapsto> 0, ''run/svc.lock'' \<mapsto> 0]"
  by (simp_all add: InitProcess_def GetLock_def Let_def os_OpenFile_def os_Link_def
      RegisterExitHandler_def no_pid_world_def quiet_world_def join2_def decimal.simps
      start_def empty_fs_def svc_lock_def)

lemma no_pid_faults:
  "open_fails no_pid_world ''run/svc.pid''"
  "callback no_pid_world n f = Some (f, [])"
  by (simp_all add: no_pid_world_def quiet_world_def)

lemma CreatePidFile_not_opened:
  "open_fails w path \<Longrightarrow> CreatePidFile w path s = Exit w 1 s"
  by (simp add: CreatePidFile_def os_OpenFile_fails StandardError_def)

lemma Exit_release_only:
  "exitHandlers s = [ReleaseLockClosure lock] \<Longrightarrow>
     fs (Exit w code s) = ReleaseLock lock (fs s)"
  by (simp add: Exit_def RunExitHandlers_def Let_def invoke_def)

text \<open>
  Claim C8 says that a failure to create or to close the PID file does not make the
  process fail.  In the code both failures go to \<^verbatim>\<open>StandardError\<close>, which ends the
  process.  On a host where the PID file cannot be opened, a new process that has
  acquired its lock with \<^verbatim>\<open>InitProcess\<close> and runs the goroutine started there ends
  with exit code 1, and the exit handler that releases the lock has removed the stable
  link.
\<close>

theorem CreatePidFile_failure_counterexample:
  "status (InitProcess no_pid_world ''svc'' ''run'' (start empty_fs)) = Running
   \<and> goroutines (InitProcess no_pid_world ''svc'' ''run'' (start empty_fs))
       = [CreatePidFileCall ''run/svc.pid'']
   \<and> entries (fs (InitProcess no_pid_world ''svc'' ''run'' (start empty_fs))) ''run/svc.lock''
       = Some 0
   \<and> status pid_failure_run = Exited 1
   \<and> invoked pid_failure_run = [ReleaseLockClosure svc_lock]
   \<and> entries (fs pid_failure_run) ''run/svc.lock'' = None"
proof -
  let ?s = "InitProcess no_pid_world ''svc'' ''run'' (start empty_fs)"
  have run: "pid_failure_run = Exit no_pid_world 1 ?s"
    unfolding pid_failure_run_def using no_pid_faults(1) by (rule CreatePidFile_not_opened)
  have "\<forall>n f. Callback n \<in> set (exitHandlers ?s) \<longrightarrow> callback no_pid_world n f \<noteq> None"
    by (simp add: no_pid_faults)
  note Exit_returns [OF InitProcess_no_pid(1) this, of 1]
  moreover have "fs (Exit no_pid_world 1 ?s) = ReleaseLock svc_lock (fs ?s)"
    using InitProcess_no_pid(2) by (rule Exit_release_only)
  then have "entries (fs (Exit no_pid_world 1 ?s)) ''run/svc.lock'' = None"
    by (simp add: svc_lock_def)
  ultimately show ?thesis by (simp add: run InitProcess_no_pid)
qed

text \<open>
  Claim C8, amended.  A failure to open or to close the PID file is fatal:
  \<^verbatim>\<open>CreatePidFile\<close> runs the exit handlers and ends the process with exit code 1.
  Only the write of the process ID is best-effort: its failure is not looked at, and
  when the file can be opened and closed \<^verbatim>\<open>CreatePidFile\<close> returns, no exit handler
  is called and the process goes on.
\<close>

theorem CreatePidFile_failure_is_fatal:
  assumes "status s = Running"
    and "\<forall>n f. Callback n \<in> set (exitHandlers s) \<longrightarrow> callback w n f \<noteq> None"
  shows "status (CreatePidFile w path s)
      = (if open_fails w path \<or> close_fails w path then Exited 1 else Running)
    \<and> invoked (CreatePidFile w path s)
      = (if open_fails w path \<or> close_fails w path then invoked s @ exitHandlers s
         else invoked s)"
proof (cases "open_fails w path")
  case True
  then have "CreatePidFile w path s = Exit w 1 (s\<lparr>fs := fs s\<rparr>)"
    by (simp add: CreatePidFile_def os_OpenFile_fails StandardError_def)
  with True Exit_returns [OF assms, of 1] show ?thesis by simp
next
  case False
  then obtain i f' where opened: "os_OpenFile w path (fs s) = (Inr i, f')"
    using os_OpenFile_opens by blast
  let ?s' = "s\<lparr>fs := write_file w path i (decimal (pid w)) f'\<rparr>"
  have written: "status ?s' = Running"
    "\<forall>n f. Callback n \<in> set (exitHandlers ?s') \<longrightarrow> callback w n f \<noteq> None"
    using assms by simp_all
  show ?thesis
  proof (cases "close_fails w path")
    case True
    then have "CreatePidFile w path s = Exit w 1 ?s'"
      by (simp add: CreatePidFile_def opened StandardError_def Let_def)
    with True Exit_returns [OF written, of 1] show ?thesis by simp
  next
    case no_close: False
    then have "CreatePidFile w path s = ?s'"
      by (simp add: CreatePidFile_def opened Let_def)
    with False no_close assms(1) show ?thesis by simp
  qed
qed

theorem CreatePidFile_failure_is_fatal_witness:
  "status (InitProcess no_pid_world ''svc'' ''run'' (start empty_fs)) = Running
   \<and> open_fails no_pid_world ''run/svc.pid''
   \<and> status (CreatePidFile no_pid_world ''run/svc.pid''
         (InitProcess no_pid_world ''svc'' ''run'' (start empty_fs))) = Exited 1
   \<and> \<not> open_fails quiet_world ''run/svc.pid'' \<and> \<not> close_fails quiet_world ''run/svc.pid''
   \<and> status (CreatePidFile quiet_world ''run/svc.pid''
         (InitProcess no_pid_world ''svc'' ''run'' (start empty_fs))) = Running"
  using CreatePidFile_failure_is_fatal
      [of "InitProcess no_pid_world ''svc'' ''run'' (start empty_fs)" no_pid_world "''run/svc.pid''"]
    CreatePidFile_failure_is_fatal
      [of "InitProcess no_pid_world ''svc'' ''run'' (start empty_fs)" quiet_world "''run/svc.pid''"]
  by (simp add: InitProcess_no_pid no_pid_faults quiet_no_faults quiet_callback)

section \<open>Properties of concurrent calls of Exit\<close>

lemma interleave_stopped:
  "status s \<noteq> Running \<Longrightarrow> interleave w schedule calls s = (calls, s)"
  by (induction schedule) simp_all

lemma single_exit_call_trace:
  "\<exists>k \<le> length (remaining p s).
     invoked (snd (interleave w schedule [(code, p)] s)) = invoked s @ take k (remaining p s)"
proof (induction schedule arbitrary: p s)
  case Nil
  have "invoked s = invoked s @ take 0 (remaining p s)" by simp
  then show ?case by auto
next
  case (Cons i schedule)
  note IH = Cons.IH
  show ?case
  proof (cases "status s = Running \<and> i = 0")
    case False
    then have "interleave w (i # schedule) [(code, p)] s = interleave w schedule [(code, p)] s"
      by auto
    with IH [of p s] show ?thesis by simp
  next
    case True
    show ?thesis
    proof (cases p)
      case AtLogWait
      with True have "interleave w (i # schedule) [(code, p)] s
          = interleave w schedule [(code, InLoop (exitHandlers s))] s"
        by simp
      with IH [of "InLoop (exitHandlers s)" s] AtLogWait show ?thesis
        by (simp add: remaining_def)
    next
      case (InLoop hs)
      show ?thesis
      proof (cases hs)
        case Nil
        with True InLoop have "interleave w (i # schedule) [(code, p)] s
            = interleave w schedule [(code, AtOsExit)] s"
          by simp
        with IH [of AtOsExit s] InLoop Nil show ?thesis
          by (simp add: remaining_def)
      next
        case (Cons h rest)
        with True InLoop have step: "interleave w (i # schedule) [(code, p)] s
            = interleave w schedule [(code, InLoop rest)] (invoke w h s)"
          by simp
        from IH [of "InLoop rest" "invoke w h s"]
        obtain k where "k \<le> length rest"
          and "invoked (snd (interleave w schedule [(code, InLoop rest)] (invoke w h s)))
            = invoked s @ h # take k rest"
          by (auto simp: remaining_def invoked_invoke)
        then have "Suc k \<le> length (remaining p s)
            \<and> invoked (snd (interleave w (i # schedule) [(code, p)] s))
              = invoked s @ take (Suc k) (remaining p s)"
          unfolding step using InLoop Cons by (simp add: remaining_def)
        then show ?thesis by blast
      qed
    next
      case AtOsExit
      with True have "interleave w (i # schedule) [(code, p)] s
          = interleave w schedule [(code, AtOsExit)] (s\<lparr>status := Exited code\<rparr>)"
        by simp
      with IH [of AtOsExit "s\<lparr>status := Exited code\<rparr>"] AtOsExit show ?thesis
        by (simp add: remaining_def)
    qed
  qed
qed

lemma exitHandlers_invoke_release:
  "exitHandlers (invoke w (ReleaseLockClosure lock) s) = exitHandlers s"
  by (simp add: invoke_def Let_def)

lemma locked_state_fields:
  "status locked_state = Running"
  "exitHandlers locked_state = [ReleaseLockClosure svc_lock]"
  "invoked locked_state = []"
  by (simp_all add: locked_state_def GetLock_def Let_def os_OpenFile_def os_Link_def
      RegisterExitHandler_def quiet_world_def join2_def decimal.simps
      start_def empty_fs_def svc_lock_def)

lemma exit_loop_completes:
  assumes "status s = Running" and "length hs + 2 \<le> n"
  shows "snd (interleave w (replicate n 0) [(code, InLoop hs)] s)
     = (let s' = run_handlers w hs s in
        if status s' = Running then s'\<lparr>status := Exited code\<rparr> else s')"
  using assms
proof (induction hs arbitrary: n s)
  case Nil
  then obtain m where n: "n = Suc (Suc m)"
    by (metis add_2_eq_Suc le_Suc_ex list.size(3) add.left_neutral)
  from Nil.prems(1) show ?case
    by (simp add: n interleave_stopped)
next
  case (Cons h hs)
  then obtain m where n: "n = Suc m" and m: "length hs + 2 \<le> m"
    by (cases n) auto
  show ?case
  proof (cases "status (invoke w h s) = Running")
    case True
    from Cons.IH [OF True m] Cons.prems(1) True show ?thesis
      by (simp add: n Let_def)
  next
    case False
    with Cons.prems(1) show ?thesis
      by (simp add: n Let_def interleave_stopped)
  qed
qed

lemma single_exit_call_completes:
  assumes "status s = Running"
  shows "snd (interleave w (replicate (length (exitHandlers s) + 3) 0) [(code, AtLogWait)] s)
     = Exit w code s"
proof -
  have "snd (interleave w (replicate (length (exitHandlers s) + 3) 0) [(code, AtLogWait)] s)
      = snd (interleave w (replicate (length (exitHandlers s) + 2) 0)
          [(code, InLoop (exitHandlers s))] s)"
  proof -
    have "replicate (k + 3) (0::nat) = 0 # replicate (k + 2) 0" for k
      by (simp add: eval_nat_numeral)
    then show ?thesis using assms by simp
  qed
  also have "\<dots> = Exit w code s"
    using exit_loop_completes [OF assms, of "exitHandlers s" "length (exitHandlers s) + 2"]
    by (simp add: Exit_def RunExitHandlers_def)
  finally show ?thesis .
qed

text \<open>
  Claim C1 says that no exit handler is called a second time even when \<^verbatim>\<open>Exit\<close> is
  entered from two concurrent paths.  \<^verbatim>\<open>Exit\<close> and \<^verbatim>\<open>RunExitHandlers\<close> have no
  guard.  In a process that holds the lock, let the signal goroutine enter \<^verbatim>\<open>Exit(0)\<close>
  and call the handler, and let the main goroutine enter \<^verbatim>\<open>Exit(1)\<close> before the first
  has reached \<^verbatim>\<open>os.Exit\<close>: the handler that releases the lock is called twice while
  the process still runs.
\<close>

theorem concurrent_Exit_counterexample:
  "exitHandlers locked_state = [ReleaseLockClosure svc_lock]
   \<and> invoked locked_state = []
   \<and> invoked (snd (interleave quiet_world [0, 0, 1, 1] two_exits locked_state))
       = [ReleaseLockClosure svc_lock, ReleaseLockClosure svc_lock]
   \<and> status (snd (interleave quiet_world [0, 0, 1, 1] two_exits locked_state)) = Running"
  by (simp add: two_exits_def locked_state_fields invoked_invoke status_invoke_release
      exitHandlers_invoke_release)

text \<open>
  Claim C1, amended.  When \<^verbatim>\<open>Exit\<close> is entered by one path only, the chain is
  drained at most once: at every moment of the run, whatever the schedule, the calls made
  so far are a prefix of the chain as it was when the loop started, so every handler has
  been called at most once and in registration order; after \<^verbatim>\<open>os.Exit\<close> nothing
  moves.  (Run to its end, the goroutine gives the state of \<open>Exit\<close>, see
  \<open>single_exit_call_completes\<close>.)
\<close>

theorem single_Exit_drains_chain_once:
  "\<exists>k \<le> length (exitHandlers s).
     invoked (snd (interleave w schedule [(code, AtLogWait)] s))
       = invoked s @ take k (exitHandlers s)"
  using single_exit_call_trace [of AtLogWait s w schedule code]
  by (simp add: remaining_def)

end
